theory Spec2Isabelle
  imports Main "HOL-Library.Sublist"
begin

section \<open>The shell's data model (App.tsx)\<close>

text \<open>
  The application shell keeps the history of screenshots in a React state variable
  \<^verbatim>\<open>screenshots: Screenshot[]\<close>. The interface is

  \<^verbatim>\<open>interface Screenshot { id: string; name: string; size: number; type: string;
    timestamp: string; status: 'processing' | 'completed' | 'error';
    analysis?: string; source?: string; }\<close>

  The fields \<^verbatim>\<open>id\<close>, \<^verbatim>\<open>size\<close> and \<^verbatim>\<open>type\<close> are renamed \<open>ident\<close>,
  \<open>size_bytes\<close> and \<open>mime_type\<close> (the first two are constants of HOL, the third a
  keyword). An optional field is an \<open>option\<close>; \<open>None\<close> is JavaScript's
  \<^verbatim>\<open>undefined\<close>. There is one text field, \<open>analysis\<close>; the interface has no
  separate field for an error detail.
\<close>

datatype status = Processing | Completed | Error

record Screenshot =
  ident :: string
  name :: string
  size_bytes :: nat
  mime_type :: string
  timestamp :: string
  status :: status
  analysis :: "string option"
  source :: "string option"

text \<open>
  \<^verbatim>\<open>interface ProcessingResponse { success: boolean; summary?: string;
    analysis_id?: string; timestamp: string; follow_up_available?: boolean;
    source?: string; error?: string; }\<close>
  is what the backend command \<^verbatim>\<open>process_screenshot_direct\<close> resolves to.
\<close>

record ProcessingResponse =
  success :: bool
  summary :: "string option"
  analysis_id :: "string option"
  resp_timestamp :: string
  follow_up_available :: "bool option"
  resp_source :: "string option"
  error :: "string option"

text \<open>
  The payload of a \<^verbatim>\<open>screenshot-processed\<close> event is read as \<^verbatim>\<open>any\<close>; the
  handler reads the eight fields of a \<open>Screenshot\<close> from it. The two fields the
  handler guards with \<^verbatim>\<open>||\<close> may be missing, and so may \<^verbatim>\<open>analysis\<close>.
\<close>

record Payload =
  p_id :: string
  p_name :: string
  p_size :: nat
  p_type :: string
  p_timestamp :: string
  p_status :: "status option"
  p_analysis :: "string option"
  p_source :: "string option"

section \<open>The \<^verbatim>\<open>screenshot-processed\<close> listener (setupListener)\<close>

text \<open>
  \<^verbatim>\<open>a || b\<close> on an optional string: \<^verbatim>\<open>undefined\<close> and the empty string are
  falsy and give \<^verbatim>\<open>b\<close>. The three status literals are non-empty strings, so a
  status that is present is truthy.
\<close>

definition or_default_status :: "status option \<Rightarrow> status \<Rightarrow> status" where
  "or_default_status v d = (case v of None \<Rightarrow> d | Some s \<Rightarrow> s)"

definition or_default_string :: "string option \<Rightarrow> string \<Rightarrow> string" where
  "or_default_string v d = (case v of None \<Rightarrow> d | Some s \<Rightarrow> if s = [] then d else s)"

text \<open>
  \<^verbatim>\<open>const newScreenshot: Screenshot = { id: screenshotData.id, name: screenshotData.name,
    size: screenshotData.size, type: screenshotData.type,
    timestamp: screenshotData.timestamp,
    status: screenshotData.status || 'completed',
    analysis: screenshotData.analysis,
    source: screenshotData.source || 'desktop_auto' };\<close>
\<close>

definition newScreenshot :: "Payload \<Rightarrow> Screenshot" where
  "newScreenshot screenshotData =
     \<lparr> ident = p_id screenshotData,
       name = p_name screenshotData,
       size_bytes = p_size screenshotData,
       mime_type = p_type screenshotData,
       timestamp = p_timestamp screenshotData,
       status = or_default_status (p_status screenshotData) Completed,
       analysis = p_analysis screenshotData,
       source = Some (or_default_string (p_source screenshotData) ''desktop_auto'') \<rparr>"

text \<open>
  The state updater the listener passes to \<^verbatim>\<open>setScreenshots\<close>:

  \<^verbatim>\<open>prev => { const isDuplicate = prev.some(existing => existing.id === newScreenshot.id);
    if (isDuplicate) { return prev; }
    const updated = [newScreenshot, ...prev]; return updated; }\<close>
\<close>

definition isDuplicate :: "Screenshot \<Rightarrow> Screenshot list \<Rightarrow> bool" where
  "isDuplicate new prev = list_ex (\<lambda>existing. ident existing = ident new) prev"

definition onScreenshotProcessed :: "Payload \<Rightarrow> Screenshot list \<Rightarrow> Screenshot list" where
  "onScreenshotProcessed screenshotData prev =
     (let new = newScreenshot screenshotData
      in if isDuplicate new prev then prev else new # prev)"

section \<open>The upload handler (handleFilesDropped)\<close>

text \<open>
  A dropped \<^verbatim>\<open>File\<close>: its name, its size in bytes and its mime type.
\<close>

record File =
  file_name :: string
  file_size :: nat
  file_type :: string

text \<open>
  Rendering of an integer by a template literal, as in \<^verbatim>\<open>`${Date.now()}-${i}`\<close>:
  decimal digits, with a leading minus sign for a negative number. (JavaScript prints
  all the digits of an integer below \<open>10\<^sup>2\<^sup>1\<close> in magnitude; the readings of a clock
  and the indices of a file list are far below.)
\<close>

fun showNat :: "nat \<Rightarrow> string" where
  "showNat n =
     (if n < 10 then [''0123456789'' ! n]
      else showNat (n div 10) @ [''0123456789'' ! (n mod 10)])"

declare showNat.simps [simp del]

definition showInt :: "int \<Rightarrow> string" where
  "showInt k = (if k < 0 then CHR ''-'' # showNat (nat (- k)) else showNat (nat k))"

definition startsWith :: "string \<Rightarrow> string \<Rightarrow> bool" where
  "startsWith s p = prefix p s"

text \<open>
  What the environment answers during one iteration of the loop: the clock read by
  \<^verbatim>\<open>Date.now()\<close>, the text of \<^verbatim>\<open>new Date().toISOString()\<close>, and how the two
  awaited promises settle. \<^verbatim>\<open>fileToBase64\<close> may reject (then the backend is not
  invoked); otherwise it gives the base64 text, and
  \<^verbatim>\<open>invoke('process_screenshot_direct', ...)\<close> rejects with an error or resolves to a
  response. An error is kept as the text \<^verbatim>\<open>`${error}`\<close> renders.
\<close>

datatype outcome =
    ReadRejected string
  | InvokeRejected string string
  | InvokeResolved string ProcessingResponse

record Readings =
  date_now :: int
  iso_string :: string
  settled :: outcome

text \<open>
  What the handler does besides updating the state: console output and backend calls.
  \<open>InvokeProcessDirect b f\<close> is the call of \<^verbatim>\<open>process_screenshot_direct\<close> with
  \<^verbatim>\<open>imageBase64 = b\<close> and \<^verbatim>\<open>metadata.filename = f\<close>. The emoji of the two
  messages of the success branch are left out of the text.
\<close>

datatype effect =
    ConsoleLog string
  | ConsoleError string
  | InvokeProcessDirect string string

text \<open>
  The component state of \<^verbatim>\<open>App\<close> that the handler updates.
\<close>

record App =
  screenshots :: "Screenshot list"
  isProcessing :: bool
  processingCount :: int

text \<open>
  \<^verbatim>\<open>const screenshot: Screenshot = { id: `${Date.now()}-${i}`, name: file.name,
    size: file.size, type: file.type, timestamp: new Date().toISOString(),
    status: 'processing', source: 'frontend_upload' };\<close>
\<close>

definition makeId :: "int \<Rightarrow> nat \<Rightarrow> string" where
  "makeId now i = showInt now @ ''-'' @ showNat i"

definition uploadScreenshot :: "nat \<Rightarrow> File \<Rightarrow> Readings \<Rightarrow> Screenshot" where
  "uploadScreenshot i file r =
     \<lparr> ident = makeId (date_now r) i,
       name = file_name file,
       size_bytes = file_size file,
       mime_type = file_type file,
       timestamp = iso_string r,
       status = Processing,
       analysis = None,
       source = Some ''frontend_upload'' \<rparr>"

text \<open>
  The three state updaters the handler passes to \<^verbatim>\<open>setScreenshots\<close>:

  \<^verbatim>\<open>prev => [screenshot, ...prev]\<close>

  \<^verbatim>\<open>prev => prev.map(s => s.id === screenshot.id
      ? { ...s, status: result.success ? 'completed' : 'error',
          analysis: result.success ? result.summary : result.error } : s)\<close>

  \<^verbatim>\<open>prev => prev.map(s => s.id === screenshot.id
      ? { ...s, status: 'error', analysis: `Processing failed: ${error}` } : s)\<close>
\<close>

definition addToState :: "Screenshot \<Rightarrow> Screenshot list \<Rightarrow> Screenshot list" where
  "addToState screenshot prev = screenshot # prev"

definition updateWithResults ::
  "string \<Rightarrow> ProcessingResponse \<Rightarrow> Screenshot list \<Rightarrow> Screenshot list" where
  "updateWithResults sid result prev =
     map (\<lambda>s. if ident s = sid
              then s\<lparr> status := (if success result then Completed else Error),
                      analysis := (if success result then summary result else error result) \<rparr>
              else s) prev"

definition markFailed :: "string \<Rightarrow> string \<Rightarrow> Screenshot list \<Rightarrow> Screenshot list" where
  "markFailed sid e prev =
     map (\<lambda>s. if ident s = sid
              then s\<lparr> status := Error, analysis := Some (''Processing failed: '' @ e) \<rparr>
              else s) prev"

text \<open>
  The body of the loop for a file that passed the mime-type test. The item is added,
  \<^verbatim>\<open>isProcessing\<close> is set and the counter incremented; then the \<^verbatim>\<open>try\<close> block
  runs to its end or to the first rejected promise, where the \<^verbatim>\<open>catch\<close> block takes
  over; the \<^verbatim>\<open>finally\<close> block decrements the counter and clears
  \<^verbatim>\<open>isProcessing\<close> when the value of \<^verbatim>\<open>processingCount\<close> that the callback
  captured is at most 1. The model takes every awaited promise as settled.
\<close>

definition finallyBlock :: "int \<Rightarrow> App \<Rightarrow> App" where
  "finallyBlock captured app =
     app\<lparr> processingCount := processingCount app - 1,
          isProcessing := (if captured \<le> 1 then False else isProcessing app) \<rparr>"

definition renderOptional :: "string option \<Rightarrow> string" where
  "renderOptional v = (case v of None \<Rightarrow> ''undefined'' | Some s \<Rightarrow> s)"

definition processFile ::
  "nat \<Rightarrow> File \<Rightarrow> Readings \<Rightarrow> int \<Rightarrow> App \<times> effect list \<Rightarrow> App \<times> effect list" where
  "processFile i file r captured st =
     (let screenshot = uploadScreenshot i file r;
          app1 = (fst st)\<lparr> screenshots := addToState screenshot (screenshots (fst st)),
                           isProcessing := True,
                           processingCount := processingCount (fst st) + 1 \<rparr>
      in case settled r of
           ReadRejected e \<Rightarrow>
             (finallyBlock captured
                (app1\<lparr> screenshots := markFailed (ident screenshot) e (screenshots app1) \<rparr>),
              snd st @ [ConsoleError (''Processing failed: '' @ e)])
         | InvokeRejected b e \<Rightarrow>
             (finallyBlock captured
                (app1\<lparr> screenshots := markFailed (ident screenshot) e (screenshots app1) \<rparr>),
              snd st @ [InvokeProcessDirect b (file_name file),
                        ConsoleError (''Processing failed: '' @ e)])
         | InvokeResolved b result \<Rightarrow>
             (finallyBlock captured
                (app1\<lparr> screenshots :=
                          updateWithResults (ident screenshot) result (screenshots app1) \<rparr>),
              snd st @ [InvokeProcessDirect b (file_name file),
                        (if success result
                         then ConsoleLog ''Screenshot processed successfully''
                         else ConsoleError (''Processing failed: '' @ renderOptional (error result)))]))"

text \<open>
  The loop \<^verbatim>\<open>for (let i = 0; i < files.length; i++)\<close>, as a recursion on the files
  that are left, with the index \<open>i\<close> of the first of them. Each file comes with the
  readings of its iteration (not used when the file is skipped).

  \<^verbatim>\<open>// Only process image files
  if (!file.type.startsWith('image/')) { continue; }\<close>
\<close>

fun dropLoop ::
  "nat \<Rightarrow> (File \<times> Readings) list \<Rightarrow> int \<Rightarrow> App \<times> effect list \<Rightarrow> App \<times> effect list" where
  "dropLoop i [] captured st = st"
| "dropLoop i ((file, r) # files) captured st =
     (if \<not> startsWith (file_type file) ''image/''
      then dropLoop (Suc i) files captured st
      else dropLoop (Suc i) files captured (processFile i file r captured st))"

definition handleFilesDropped ::
  "(File \<times> Readings) list \<Rightarrow> int \<Rightarrow> App \<Rightarrow> App \<times> effect list" where
  "handleFilesDropped files captured app =
     dropLoop 0 files captured
       (app, [ConsoleLog (''Files dropped: '' @ showNat (length files))])"

subsection \<open>Interleaved executions\<close>

text \<open>
  The handler is asynchronous: between the adding of an item and its finalisation it
  waits for the backend, and other calls of the handler and deliveries of
  \<^verbatim>\<open>screenshot-processed\<close> events may run. React applies the updaters passed to
  \<^verbatim>\<open>setScreenshots\<close> one after the other, in the order of the calls, each to the
  list the one before it returned. An execution is therefore a list of updates.

  The fifth call of \<^verbatim>\<open>setScreenshots\<close> is in \<^verbatim>\<open>loadScreenshots\<close>, which runs
  when the component is mounted. It passes no updater but a list, which replaces the
  state:

  \<^verbatim>\<open>const existing = await invoke<any[]>('get_recent_screenshots');
  setScreenshots(existing.map(item => ({ id: item.id, name: item.name, size: item.size,
    type: item.type, timestamp: item.timestamp, status: item.status,
    analysis: item.analysis, source: item.source })));\<close>

  The listener is set up after the load has ended, but the drop zone is there from the
  first render, so the replacement may follow updates of the upload handler. The items
  of the backend are read at the types of the interface \<open>Screenshot\<close>. (When the
  command is rejected the error is logged and the state is not set.)
\<close>

definition loadedScreenshot :: "Screenshot \<Rightarrow> Screenshot" where
  "loadedScreenshot item =
     \<lparr> ident = ident item,
       name = name item,
       size_bytes = size_bytes item,
       mime_type = mime_type item,
       timestamp = timestamp item,
       status = status item,
       analysis = analysis item,
       source = source item \<rparr>"

definition loadScreenshots :: "Screenshot list \<Rightarrow> Screenshot list \<Rightarrow> Screenshot list" where
  "loadScreenshots existing prev = map loadedScreenshot existing"

datatype update =
    AddToState Screenshot
  | UpdateWithResults string ProcessingResponse
  | MarkFailed string string
  | ScreenshotProcessed Payload
  | LoadScreenshots "Screenshot list"

fun applyUpdate :: "update \<Rightarrow> Screenshot list \<Rightarrow> Screenshot list" where
  "applyUpdate (AddToState s) prev = addToState s prev"
| "applyUpdate (UpdateWithResults sid result) prev = updateWithResults sid result prev"
| "applyUpdate (MarkFailed sid e) prev = markFailed sid e prev"
| "applyUpdate (ScreenshotProcessed p) prev = onScreenshotProcessed p prev"
| "applyUpdate (LoadScreenshots existing) prev = loadScreenshots existing prev"

fun run :: "update list \<Rightarrow> Screenshot list \<Rightarrow> Screenshot list" where
  "run [] prev = prev"
| "run (u # us) prev = run us (applyUpdate u prev)"

text \<open>
  The fields of an item that no updater writes: all but the status and the analysis.
\<close>

definition frozen :: "Screenshot \<Rightarrow> string \<times> string \<times> nat \<times> string \<times> string \<times> string option" where
  "frozen s = (ident s, name s, size_bytes s, mime_type s, timestamp s, source s)"

text \<open>
  Two notions for stating properties of executions. \<open>newIds i files\<close> lists the ids
  that the loop, started at index \<open>i\<close>, gives to the files it accepts. \<open>later old cur\<close>
  relates an item to a later state of it: the fields that no updater writes are the
  same, and an item that had left the PROCESSING state has not returned to it.
\<close>

fun newIds :: "nat \<Rightarrow> (File \<times> Readings) list \<Rightarrow> string list" where
  "newIds i [] = []"
| "newIds i ((file, r) # files) =
     (if startsWith (file_type file) ''image/''
      then makeId (date_now r) i # newIds (Suc i) files
      else newIds (Suc i) files)"

definition later :: "Screenshot \<Rightarrow> Screenshot \<Rightarrow> bool" where
  "later old cur \<longleftrightarrow>
     frozen cur = frozen old \<and> (status old \<noteq> Processing \<longrightarrow> status cur \<noteq> Processing)"

text \<open>
  An execution is free of loads when none of its updates replaces the list.
\<close>

fun isLoad :: "update \<Rightarrow> bool" where
  "isLoad (LoadScreenshots existing) = True"
| "isLoad u = False"

definition loadFree :: "update list \<Rightarrow> bool" where
  "loadFree us = list_all (\<lambda>u. \<not> isLoad u) us"

text \<open>
  The shell keeps the analysis summary and the error detail of an item in the one field
  \<open>analysis\<close>. \<open>text_matches_status answers thrown s\<close> says what the field of \<open>s\<close>
  holds, given the responses and the errors that were received: nothing while the item
  is PROCESSING; in a COMPLETED item the summary of a response that reported success;
  in an ERROR item the error of a response that reported failure, or the text that the
  \<^verbatim>\<open>catch\<close> block makes of an error that was thrown.
\<close>

definition text_matches_status ::
  "ProcessingResponse list \<Rightarrow> string list \<Rightarrow> Screenshot \<Rightarrow> bool" where
  "text_matches_status answers thrown s =
     (case status s of
        Processing \<Rightarrow> analysis s = None
      | Completed \<Rightarrow> list_ex (\<lambda>r. success r \<and> analysis s = summary r) answers
      | Error \<Rightarrow>
          list_ex (\<lambda>r. \<not> success r \<and> analysis s = error r) answers \<or>
          list_ex (\<lambda>e. analysis s = Some (''Processing failed: '' @ e)) thrown)"

text \<open>
  An update is admissible for given responses and errors when what it brings from
  outside the shell is among them: the response of a finalisation, the error of a
  failed one, and, for the items that come as they are (an added item, the item of an
  event, the items of a load), a text that matches the status.
\<close>

fun admissible :: "ProcessingResponse list \<Rightarrow> string list \<Rightarrow> update \<Rightarrow> bool" where
  "admissible answers thrown (AddToState s) = text_matches_status answers thrown s"
| "admissible answers thrown (UpdateWithResults sid result) = (result \<in> set answers)"
| "admissible answers thrown (MarkFailed sid e) = (e \<in> set thrown)"
| "admissible answers thrown (ScreenshotProcessed p) =
     text_matches_status answers thrown (newScreenshot p)"
| "admissible answers thrown (LoadScreenshots existing) =
     list_all (text_matches_status answers thrown) existing"

section \<open>The server panel (components/ServerConfig.tsx)\<close>

record ServerConfig =
  anthropic_api_key :: "string option"
  telegram_bot_token :: "string option"
  telegram_chat_id :: "string option"
  enable_desktop_detection :: bool
  server_port :: nat

record ServerInfo =
  info_status :: string
  local_ip :: string
  port :: nat
  endpoint_url :: string
  desktop_detection :: bool
  telegram_configured :: bool

text \<open>
  The component state: the configuration being edited, the lifecycle state
  \<^verbatim>\<open>serverInfo\<close> (\<^verbatim>\<open>null\<close> when no server runs), and two flags.
\<close>

record Panel =
  config :: ServerConfig
  serverInfo :: "ServerInfo option"
  isLoading :: bool
  showSetup :: bool
  recentProcessing :: "ProcessingResponse list"

datatype panel_effect =
    Alert string
  | PanelConsoleError string
  | InvokeStartServer ServerConfig

datatype start_result = StartResolved ServerInfo | StartRejected string

text \<open>
  \<^verbatim>\<open>!config.anthropic_api_key\<close>: the key is \<^verbatim>\<open>undefined\<close> or the empty string.
\<close>

definition absent :: "string option \<Rightarrow> bool" where
  "absent v = (case v of None \<Rightarrow> True | Some s \<Rightarrow> s = [])"

text \<open>
  \<^verbatim>\<open>const startServer = async () => {
    if (!config.anthropic_api_key) { alert('Anthropic API key is required!'); return; }
    setIsLoading(true);
    try { const info = await invoke<ServerInfo>('start_server', { config });
          setServerInfo(info); setShowSetup(false); alert(`... ${info.endpoint_url} ...`); }
    catch (error) { console.error('Failed to start server:', error);
                    alert(`Failed to start server: ${error}`); }
    finally { setIsLoading(false); } };\<close>

  The first argument is how the backend's \<^verbatim>\<open>start_server\<close> settles; it is read only
  when the command is invoked. The state returned is the one after the
  \<^verbatim>\<open>finally\<close> block; the text of the alert of the success branch is shortened to
  its first line and the endpoint.
\<close>

definition startServer :: "start_result \<Rightarrow> Panel \<Rightarrow> Panel \<times> panel_effect list" where
  "startServer backend panel =
     (if absent (anthropic_api_key (config panel))
      then (panel, [Alert ''Anthropic API key is required!''])
      else case backend of
             StartResolved info \<Rightarrow>
               (panel\<lparr> serverInfo := Some info, showSetup := False, isLoading := False \<rparr>,
                [InvokeStartServer (config panel),
                 Alert (''Server started successfully! Endpoint: '' @ endpoint_url info)])
           | StartRejected e \<Rightarrow>
               (panel\<lparr> isLoading := False \<rparr>,
                [InvokeStartServer (config panel),
                 PanelConsoleError (''Failed to start server: '' @ e),
                 Alert (''Failed to start server: '' @ e)]))"

text \<open>
  The button that calls \<^verbatim>\<open>startServer\<close>:
  \<^verbatim>\<open>disabled={isLoading || !config.anthropic_api_key}\<close>.
\<close>

definition startButtonDisabled :: "Panel \<Rightarrow> bool" where
  "startButtonDisabled panel \<longleftrightarrow> isLoading panel \<or> absent (anthropic_api_key (config panel))"

section \<open>The Processing Pipeline\<close>

text \<open>
  Modelled from the spec: the record of a processed item (section 3). The backend that
  owns it (the Rust sources behind the commands the shell invokes) is not among the
  source files; the shell's \<open>Screenshot\<close> is a different type.
\<close>

datatype source_tag = IOS_PUSH | DESKTOP_AUTO | MANUAL_UPLOAD

record ProcessedItem =
  item_id :: string
  item_source :: source_tag
  item_name :: string
  byteSize :: nat
  mimeType :: string
  item_timestamp :: string
  item_status :: status
  analysisSummary :: "string option"
  errorDetail :: "string option"
  imageBytes :: "nat list"

text \<open>
  Modelled from the spec: the typed failures of the AI Analysis Client (section 4.3).
\<close>

datatype failure_kind =
  AUTH_ERROR | RATE_LIMITED | PAYLOAD_TOO_LARGE | PROVIDER_UNAVAILABLE | TIMEOUT

fun failure_text :: "failure_kind \<Rightarrow> string" where
  "failure_text AUTH_ERROR = ''AUTH_ERROR''"
| "failure_text RATE_LIMITED = ''RATE_LIMITED''"
| "failure_text PAYLOAD_TOO_LARGE = ''PAYLOAD_TOO_LARGE''"
| "failure_text PROVIDER_UNAVAILABLE = ''PROVIDER_UNAVAILABLE''"
| "failure_text TIMEOUT = ''TIMEOUT''"

text \<open>
  Modelled from the spec: what the collaborators of one pipeline run answer. The codec
  decodes the bytes or not; the analysis client returns a summary or a typed failure
  (after its own retry); the notification is delivered or not.
\<close>

record Collaborators =
  decoded :: bool
  analysed :: "failure_kind + string"
  delivered :: bool

datatype pipeline_log = NotificationDeliveryFailed

datatype pipeline_event = ItemProcessed ProcessedItem

text \<open>
  Modelled from the spec: the pipeline's \<^verbatim>\<open>submit\<close> (section 4.5), which is code of
  the missing backend. Step 1: on a codec failure the item is finalised as ERROR with a
  DECODE_ERROR detail and the other steps are skipped. Step 2: the item is in the
  PROCESSING state. Step 3: the analysis client is called; its failure finalises the
  item as ERROR with the failure kind. Step 4: the notification is sent with whatever
  result there is; a failed delivery is logged and changes nothing else. Step 5: the
  item is finalised (COMPLETED if step 3 succeeded, else ERROR) and the
  \<^verbatim>\<open>item-processed\<close> event is emitted. The argument \<open>item\<close> is the item as
  ingested (id, source, name, size, mime type, timestamp, bytes).
\<close>

definition submit ::
  "Collaborators \<Rightarrow> ProcessedItem \<Rightarrow> ProcessedItem \<times> pipeline_log list \<times> pipeline_event list" where
  "submit env item =
     (if \<not> decoded env
      then (item\<lparr> item_status := Error, errorDetail := Some ''DECODE_ERROR'' \<rparr>, [], [])
      else
        let processing = item\<lparr> item_status := Processing \<rparr>;
            final = (case analysed env of
                       Inr text \<Rightarrow>
                         processing\<lparr> item_status := Completed, analysisSummary := Some text \<rparr>
                     | Inl kind \<Rightarrow>
                         processing\<lparr> item_status := Error,
                                     errorDetail := Some (failure_text kind) \<rparr>);
            logged = (if delivered env then [] else [NotificationDeliveryFailed])
        in (final, logged, [ItemProcessed final]))"

section \<open>The validation of a submission\<close>

text \<open>
  Modelled from the spec: the errors of the taxonomy (section 7) that an ingestion can
  end with before the analysis.
\<close>

datatype ingest_error = ValidationError | DecodeError

text \<open>
  Modelled from the spec: a submission as the HTTP Ingestion Endpoint sees it (section
  4.2 and the wire protocol of section 6): whether the JSON and the base64 text could
  be read, the mime type, and the size of the payload in bytes.
\<close>

record Submission =
  well_formed :: bool
  sub_mime :: string
  sub_size :: nat

text \<open>
  Modelled from the spec: the validation of the HTTP Ingestion Endpoint (section 4.2),
  which is code of the missing backend: reject non-image mime types, reject payloads
  exceeding the configured size limit, reject malformed base64/JSON, each with a typed
  error, which the taxonomy (section 7) names ValidationError (bad input shape, size or
  mime). The first argument is the configured size limit. The shell under
  \<^verbatim>\<open>src/\<close> compares no size: its upload handler hands every image file to the
  backend.
\<close>

definition validate :: "nat \<Rightarrow> Submission \<Rightarrow> ingest_error + Submission" where
  "validate limit sub =
     (if \<not> well_formed sub then Inl ValidationError
      else if \<not> startsWith (sub_mime sub) ''image/'' then Inl ValidationError
      else if limit < sub_size sub then Inl ValidationError
      else Inr sub)"

section \<open>Concrete inputs\<close>

text \<open>
  Files, backend responses and states on which the definitions are evaluated below.
\<close>

definition shot_png :: File where
  "shot_png = \<lparr> file_name = ''shot.png'', file_size = 2048, file_type = ''image/png'' \<rparr>"

definition chart_png :: File where
  "chart_png = \<lparr> file_name = ''chart.png'', file_size = 4096, file_type = ''image/png'' \<rparr>"

definition notes_txt :: File where
  "notes_txt = \<lparr> file_name = ''notes.txt'', file_size = 12, file_type = ''text/plain'' \<rparr>"

definition ok_response :: ProcessingResponse where
  "ok_response =
     \<lparr> success = True, summary = Some ''A login form'', analysis_id = Some ''a1'',
       resp_timestamp = ''2025-08-27T11:42:09Z'', follow_up_available = Some True,
       resp_source = Some ''frontend_upload'', error = None \<rparr>"

definition failed_response :: ProcessingResponse where
  "failed_response =
     \<lparr> success = False, summary = None, analysis_id = None,
       resp_timestamp = ''2025-08-27T11:42:10Z'', follow_up_available = None,
       resp_source = None, error = Some ''rate limited'' \<rparr>"

definition idle_app :: App where
  "idle_app = \<lparr> screenshots = [], isProcessing = False, processingCount = 0 \<rparr>"

text \<open>
  Two iterations that read the same value of the clock; the backend answers the first
  with a summary and the second with a failure.
\<close>

definition answered :: Readings where
  "answered =
     \<lparr> date_now = 1700000000000, iso_string = ''2023-11-14T22:13:20.000Z'',
       settled = InvokeResolved ''iVBORw0KGgo='' ok_response \<rparr>"

definition refused :: Readings where
  "refused =
     \<lparr> date_now = 1700000000000, iso_string = ''2023-11-14T22:13:20.000Z'',
       settled = InvokeResolved ''iVBORw0KGgo='' failed_response \<rparr>"

definition event_payload :: Payload where
  "event_payload =
     \<lparr> p_id = ''7f3c'', p_name = ''Screenshot 1.png'', p_size = 1024, p_type = ''image/png'',
       p_timestamp = ''2025-08-27T11:42:09Z'', p_status = None,
       p_analysis = Some ''A terminal window'', p_source = None \<rparr>"


text \<open>
  Two submissions for a limit of 15 MiB: one of exactly the limit, one of a byte more.
\<close>

definition at_limit :: Submission where
  "at_limit = \<lparr> well_formed = True, sub_mime = ''image/png'', sub_size = 15728640 \<rparr>"

definition over_limit :: Submission where
  "over_limit = \<lparr> well_formed = True, sub_mime = ''image/png'', sub_size = 15728641 \<rparr>"

definition keyless_panel :: Panel where
  "keyless_panel =
     \<lparr> config = \<lparr> anthropic_api_key = Some [], telegram_bot_token = Some [],
                  telegram_chat_id = Some [], enable_desktop_detection = False,
                  server_port = 5001 \<rparr>,
       serverInfo = None, isLoading = False, showSetup = True, recentProcessing = [] \<rparr>"

definition running_info :: ServerInfo where
  "running_info =
     \<lparr> info_status = ''running'', local_ip = ''192.168.1.20'', port = 5001,
       endpoint_url = ''http://192.168.1.20:5001/screenshot'', desktop_detection = False,
       telegram_configured = False \<rparr>"

definition undelivered :: Collaborators where
  "undelivered = \<lparr> decoded = True, analysed = Inr ''A login form'', delivered = False \<rparr>"

definition ingested :: ProcessedItem where
  "ingested =
     \<lparr> item_id = ''1'', item_source = IOS_PUSH, item_name = ''IMG_0001.png'',
       byteSize = 3, mimeType = ''image/png'', item_timestamp = ''2025-08-27T11:42:09Z'',
       item_status = Processing, analysisSummary = None, errorDetail = None,
       imageBytes = [137, 80, 78] \<rparr>"

section \<open>Properties of the listener\<close>

lemma isDuplicate_iff: "isDuplicate new prev \<longleftrightarrow> ident new \<in> ident ` set prev"
  unfolding isDuplicate_def list_ex_iff by (metis (no_types) imageE image_eqI)

lemma isDuplicate_after_event:
  "isDuplicate (newScreenshot p) (onScreenshotProcessed p prev)"
  by (simp add: onScreenshotProcessed_def Let_def isDuplicate_def)

text \<open>
  Claim C9. Handling a \<^verbatim>\<open>screenshot-processed\<close> event is idempotent per id: when
  the payload's id is already the id of an item of the list, the handler returns the
  list as it is; hence, for every list, delivering the same event twice gives the list
  that delivering it once gives.
\<close>

theorem event_idempotent_per_id:
  "(p_id p \<in> ident ` set prev \<longrightarrow> onScreenshotProcessed p prev = prev) \<and>
   onScreenshotProcessed p (onScreenshotProcessed p prev) = onScreenshotProcessed p prev"
proof
  show "p_id p \<in> ident ` set prev \<longrightarrow> onScreenshotProcessed p prev = prev"
    by (simp add: onScreenshotProcessed_def Let_def isDuplicate_iff newScreenshot_def)
next
  have "isDuplicate (newScreenshot p) (onScreenshotProcessed p prev)"
    by (rule isDuplicate_after_event)
  then show "onScreenshotProcessed p (onScreenshotProcessed p prev) = onScreenshotProcessed p prev"
    by (simp add: onScreenshotProcessed_def [of p "onScreenshotProcessed p prev"] Let_def)
qed

theorem event_idempotent_per_id_witness:
  "onScreenshotProcessed event_payload [newScreenshot event_payload] =
     [newScreenshot event_payload] \<and>
   onScreenshotProcessed event_payload (onScreenshotProcessed event_payload []) =
     onScreenshotProcessed event_payload []"
  using event_idempotent_per_id [of event_payload "[newScreenshot event_payload]"]
    event_idempotent_per_id [of event_payload "[]"]
  by (simp add: newScreenshot_def)

text \<open>
  Claim C10. The listener applies defaults to the payload: a missing status gives the
  status \<^verbatim>\<open>completed\<close>, a missing source gives the source \<^verbatim>\<open>desktop_auto\<close>, and
  the other fields (id, name, size, type, timestamp, analysis) are the payload's. A
  status that is present, and a source that is present and not empty, are kept.
\<close>

theorem event_defaults:
  "(p_status p = None \<longrightarrow> status (newScreenshot p) = Completed) \<and>
   (p_source p = None \<longrightarrow> source (newScreenshot p) = Some ''desktop_auto'') \<and>
   (\<forall>s. p_status p = Some s \<longrightarrow> status (newScreenshot p) = s) \<and>
   (\<forall>s. p_source p = Some s \<and> s \<noteq> [] \<longrightarrow> source (newScreenshot p) = Some s) \<and>
   ident (newScreenshot p) = p_id p \<and>
   name (newScreenshot p) = p_name p \<and>
   size_bytes (newScreenshot p) = p_size p \<and>
   mime_type (newScreenshot p) = p_type p \<and>
   timestamp (newScreenshot p) = p_timestamp p \<and>
   analysis (newScreenshot p) = p_analysis p"
  by (simp add: newScreenshot_def or_default_status_def or_default_string_def)

theorem event_defaults_witness:
  "newScreenshot event_payload =
     \<lparr> ident = ''7f3c'', name = ''Screenshot 1.png'', size_bytes = 1024,
       mime_type = ''image/png'', timestamp = ''2025-08-27T11:42:09Z'', status = Completed,
       analysis = Some ''A terminal window'', source = Some ''desktop_auto'' \<rparr>"
  using event_defaults [of event_payload]
  by (simp add: event_payload_def newScreenshot_def or_default_status_def
      or_default_string_def)

section \<open>Properties of the upload handler\<close>

lemmas handler_defs =
  handleFilesDropped_def processFile_def uploadScreenshot_def makeId_def showInt_def
  showNat.simps
  startsWith_def addToState_def updateWithResults_def markFailed_def finallyBlock_def
  renderOptional_def

subsection \<open>Files that are not images\<close>

text \<open>
  Claim C6, as stated, asks for a typed error when a file that is not an image is
  submitted. The handler gives none: dropping one text file leaves the state as it was,
  and the only output is the line that counts the dropped files.
\<close>

theorem non_image_rejected_with_error_counterexample:
  "handleFilesDropped [(notes_txt, answered)] 0 idle_app =
     (idle_app, [ConsoleLog ''Files dropped: 1''])"
  by (simp add: handleFilesDropped_def startsWith_def notes_txt_def showNat.simps)

text \<open>
  The history and the backend calls after a drop: the mime type of every item is one
  that was in the history or an image type, and every call of the backend carries the
  name of a dropped file of an image type.
\<close>

lemma mime_updateWithResults:
  "map mime_type (updateWithResults sid result xs) = map mime_type xs"
  by (simp add: updateWithResults_def)

lemma mime_markFailed: "map mime_type (markFailed sid e xs) = map mime_type xs"
  by (simp add: markFailed_def)

lemma processFile_mime:
  "map mime_type (screenshots (fst (processFile i f r captured st))) =
     file_type f # map mime_type (screenshots (fst st))"
  by (cases "settled r")
    (simp_all add: processFile_def Let_def finallyBlock_def addToState_def uploadScreenshot_def
      mime_updateWithResults mime_markFailed)

lemma processFile_invokes:
  "InvokeProcessDirect b n \<in> set (snd (processFile i f r captured st)) \<Longrightarrow>
   InvokeProcessDirect b n \<in> set (snd st) \<or> n = file_name f"
  by (cases "settled r") (auto simp: processFile_def Let_def split: if_splits)

lemma dropLoop_mime:
  "set (map mime_type (screenshots (fst (dropLoop i files captured st)))) \<subseteq>
     set (map mime_type (screenshots (fst st))) \<union> {t. startsWith t ''image/''}"
proof (induction files arbitrary: i st)
  case Nil
  show ?case by simp
next
  case (Cons fr files)
  obtain f r where fr: "fr = (f, r)" by (cases fr)
  show ?case
  proof (cases "startsWith (file_type f) ''image/''")
    case False
    with Cons.IH [of "Suc i" st] show ?thesis unfolding fr by simp
  next
    case True
    from Cons.IH [of "Suc i" "processFile i f r captured st"] True
    show ?thesis unfolding fr by (auto simp: processFile_mime)
  qed
qed

lemma dropLoop_invokes:
  "InvokeProcessDirect b n \<in> set (snd (dropLoop i files captured st)) \<Longrightarrow>
   InvokeProcessDirect b n \<in> set (snd st) \<or>
   (\<exists>f r. (f, r) \<in> set files \<and> file_name f = n \<and> startsWith (file_type f) ''image/'')"
proof (induction files arbitrary: i st)
  case Nil
  then show ?case by simp
next
  case (Cons fr files)
  obtain f r where fr: "fr = (f, r)" by (cases fr)
  show ?case
  proof (cases "startsWith (file_type f) ''image/''")
    case False
    with Cons.prems have "InvokeProcessDirect b n \<in> set (snd (dropLoop (Suc i) files captured st))"
      unfolding fr by simp
    from Cons.IH [OF this] show ?thesis by auto
  next
    case True
    with Cons.prems have "InvokeProcessDirect b n \<in>
        set (snd (dropLoop (Suc i) files captured (processFile i f r captured st)))"
      unfolding fr by simp
    from Cons.IH [OF this]
    have "InvokeProcessDirect b n \<in> set (snd (processFile i f r captured st)) \<or>
      (\<exists>f r. (f, r) \<in> set files \<and> file_name f = n \<and> startsWith (file_type f) ''image/'')" .
    then show ?thesis
    proof
      assume "InvokeProcessDirect b n \<in> set (snd (processFile i f r captured st))"
      from processFile_invokes [OF this] True show ?thesis unfolding fr by auto
    next
      assume "\<exists>f r. (f, r) \<in> set files \<and> file_name f = n \<and> startsWith (file_type f) ''image/''"
      then show ?thesis by auto
    qed
  qed
qed

text \<open>
  Claim C6, amended. A file whose mime type does not start with \<^verbatim>\<open>image/\<close> is
  skipped without any output: the loop goes on with the files after it, from the same
  state and the same effects. After a drop, an item of the history has an image type
  unless its type was in the history before, and every call of the backend is for a
  dropped file of an image type. So the file is not handed to the backend, is not added
  to the history, and the files after it are processed.
\<close>

theorem non_image_skipped:
  "(\<not> startsWith (file_type file) ''image/'' \<longrightarrow>
      dropLoop i ((file, r) # files) captured st = dropLoop (Suc i) files captured st) \<and>
   (\<forall>s \<in> set (screenshots (fst (handleFilesDropped dropped captured app))).
      mime_type s \<in> mime_type ` set (screenshots app) \<or> startsWith (mime_type s) ''image/'') \<and>
   (\<forall>b n. InvokeProcessDirect b n \<in> set (snd (handleFilesDropped dropped captured app)) \<longrightarrow>
      (\<exists>f r. (f, r) \<in> set dropped \<and> file_name f = n \<and> startsWith (file_type f) ''image/''))"
proof (intro conjI)
  show "\<not> startsWith (file_type file) ''image/'' \<longrightarrow>
      dropLoop i ((file, r) # files) captured st = dropLoop (Suc i) files captured st"
    by simp
next
  show "\<forall>s \<in> set (screenshots (fst (handleFilesDropped dropped captured app))).
      mime_type s \<in> mime_type ` set (screenshots app) \<or> startsWith (mime_type s) ''image/''"
  proof
    fix s
    assume "s \<in> set (screenshots (fst (handleFilesDropped dropped captured app)))"
    then have "mime_type s \<in>
        set (map mime_type (screenshots (fst (handleFilesDropped dropped captured app))))"
      by simp
    with dropLoop_mime [of 0 dropped captured
        "(app, [ConsoleLog (''Files dropped: '' @ showNat (length dropped))])"]
    show "mime_type s \<in> mime_type ` set (screenshots app) \<or> startsWith (mime_type s) ''image/''"
      unfolding handleFilesDropped_def by auto
  qed
next
  show "\<forall>b n. InvokeProcessDirect b n \<in> set (snd (handleFilesDropped dropped captured app)) \<longrightarrow>
      (\<exists>f r. (f, r) \<in> set dropped \<and> file_name f = n \<and> startsWith (file_type f) ''image/'')"
  proof (intro allI impI)
    fix b n
    assume "InvokeProcessDirect b n \<in> set (snd (handleFilesDropped dropped captured app))"
    then have "InvokeProcessDirect b n \<in> set (snd (dropLoop 0 dropped captured
        (app, [ConsoleLog (''Files dropped: '' @ showNat (length dropped))])))"
      by (simp add: handleFilesDropped_def)
    from dropLoop_invokes [OF this]
    show "\<exists>f r. (f, r) \<in> set dropped \<and> file_name f = n \<and> startsWith (file_type f) ''image/''"
      by simp
  qed
qed

theorem non_image_skipped_witness:
  "\<not> startsWith (file_type notes_txt) ''image/'' \<and>
   handleFilesDropped [(notes_txt, refused), (shot_png, answered)] 0 idle_app =
     (\<lparr> screenshots =
          [\<lparr> ident = ''1700000000000-1'', name = ''shot.png'', size_bytes = 2048,
             mime_type = ''image/png'', timestamp = ''2023-11-14T22:13:20.000Z'',
             status = Completed, analysis = Some ''A login form'',
             source = Some ''frontend_upload'' \<rparr>],
        isProcessing = False, processingCount = 0 \<rparr>,
      [ConsoleLog ''Files dropped: 2'',
       InvokeProcessDirect ''iVBORw0KGgo='' ''shot.png'',
       ConsoleLog ''Screenshot processed successfully''])"
proof -
  have skip: "\<not> startsWith (file_type notes_txt) ''image/''"
    by (simp add: startsWith_def notes_txt_def)
  have "handleFilesDropped [(notes_txt, refused), (shot_png, answered)] 0 idle_app =
        dropLoop 1 [(shot_png, answered)] 0 (idle_app, [ConsoleLog ''Files dropped: 2''])"
    unfolding handleFilesDropped_def
    using non_image_skipped [THEN conjunct1, rule_format, OF skip]
    by (simp add: showNat.simps)
  also have "\<dots> =
     (\<lparr> screenshots =
          [\<lparr> ident = ''1700000000000-1'', name = ''shot.png'', size_bytes = 2048,
             mime_type = ''image/png'', timestamp = ''2023-11-14T22:13:20.000Z'',
             status = Completed, analysis = Some ''A login form'',
             source = Some ''frontend_upload'' \<rparr>],
        isProcessing = False, processingCount = 0 \<rparr>,
      [ConsoleLog ''Files dropped: 2'',
       InvokeProcessDirect ''iVBORw0KGgo='' ''shot.png'',
       ConsoleLog ''Screenshot processed successfully''])"
    by (simp add: handler_defs shot_png_def answered_def ok_response_def idle_app_def)
  finally show ?thesis using skip by simp
qed

subsection \<open>Identifiers\<close>

text \<open>
  The rendering of numbers is injective and a rendered natural number has no minus sign,
  so an id determines the clock reading and the index it was made from.
\<close>

lemma digit_inj:
  "a < 10 \<Longrightarrow> b < 10 \<Longrightarrow> ''0123456789'' ! a = ''0123456789'' ! b \<Longrightarrow> a = b"
proof -
  assume a: "a < 10" and b: "b < 10" and eq: "''0123456789'' ! a = ''0123456789'' ! b"
  have d: "distinct ''0123456789''" by simp
  have l: "length ''0123456789'' = 10" by simp
  from d a b eq l show "a = b" by (simp only: nth_eq_iff_index_eq)
qed

lemma showNat_digits: "set (showNat n) \<subseteq> set ''0123456789''"
proof (induction n rule: showNat.induct)
  case (1 n)
  have m: "''0123456789'' ! (n mod 10) \<in> set ''0123456789''"
    by (rule nth_mem) simp
  show ?case
  proof (cases "n < 10")
    case True
    then have "''0123456789'' ! n \<in> set ''0123456789''" by (intro nth_mem) simp
    with True show ?thesis by (subst showNat.simps) simp
  next
    case False
    with 1 have "set (showNat (n div 10)) \<subseteq> set ''0123456789''" by simp
    with False m show ?thesis by (subst showNat.simps) simp
  qed
qed

lemma showNat_no_minus: "CHR ''-'' \<notin> set (showNat n)"
  using showNat_digits [of n] by auto

lemma showNat_nonempty: "showNat n \<noteq> []"
  by (subst showNat.simps) simp

lemma showNat_inj: "showNat a = showNat b \<Longrightarrow> a = b"
proof (induction a arbitrary: b rule: showNat.induct)
  case (1 n)
  show ?case
  proof (cases "n < 10")
    case True
    show ?thesis
    proof (cases "b < 10")
      case b: True
      from "1.prems" True b have "''0123456789'' ! n = ''0123456789'' ! b"
        by (simp add: showNat.simps [of n] showNat.simps [of b])
      with True b show ?thesis by (rule digit_inj)
    next
      case b: False
      from "1.prems" True b
      have "[''0123456789'' ! n] = showNat (b div 10) @ [''0123456789'' ! (b mod 10)]"
        by (simp add: showNat.simps [of n] showNat.simps [of b])
      then have "showNat (b div 10) = []" by simp
      with showNat_nonempty show ?thesis by blast
    qed
  next
    case False
    show ?thesis
    proof (cases "b < 10")
      case b: True
      from "1.prems" False b
      have "showNat (n div 10) @ [''0123456789'' ! (n mod 10)] = [''0123456789'' ! b]"
        by (simp add: showNat.simps [of n] showNat.simps [of b])
      then have "showNat (n div 10) = []" by simp
      with showNat_nonempty show ?thesis by blast
    next
      case b: False
      from "1.prems" False b
      have "showNat (n div 10) @ [''0123456789'' ! (n mod 10)] =
            showNat (b div 10) @ [''0123456789'' ! (b mod 10)]"
        by (simp add: showNat.simps [of n] showNat.simps [of b])
      then have p: "showNat (n div 10) = showNat (b div 10)"
        and q: "''0123456789'' ! (n mod 10) = ''0123456789'' ! (b mod 10)"
        by simp_all
      from "1.IH" [OF False p] have dv: "n div 10 = b div 10" .
      have md: "n mod 10 = b mod 10"
        by (rule digit_inj [OF _ _ q]) simp_all
      from dv md have "n div 10 * 10 + n mod 10 = b div 10 * 10 + b mod 10" by simp
      then show ?thesis by (simp only: div_mult_mod_eq)
    qed
  qed
qed

lemma showInt_inj: "showInt a = showInt b \<Longrightarrow> a = b"
proof -
  assume eq: "showInt a = showInt b"
  have hd_nat: "\<And>n. hd (showNat n) \<noteq> CHR ''-''"
  proof -
    fix n
    have "hd (showNat n) \<in> set (showNat n)" by (rule hd_in_set) (rule showNat_nonempty)
    with showNat_no_minus [of n] show "hd (showNat n) \<noteq> CHR ''-''" by auto
  qed
  show "a = b"
  proof (cases "a < 0")
    case True
    show ?thesis
    proof (cases "b < 0")
      case b: True
      with True eq have "showNat (nat (- a)) = showNat (nat (- b))" by (simp add: showInt_def)
      then have "nat (- a) = nat (- b)" by (rule showNat_inj)
      with True b show ?thesis by simp
    next
      case b: False
      with True eq have "CHR ''-'' # showNat (nat (- a)) = showNat (nat b)"
        by (simp add: showInt_def)
      then have "hd (showNat (nat b)) = hd (CHR ''-'' # showNat (nat (- a)))" by simp
      then have "hd (showNat (nat b)) = CHR ''-''" by simp
      with hd_nat show ?thesis by blast
    qed
  next
    case False
    show ?thesis
    proof (cases "b < 0")
      case b: True
      with False eq have "showNat (nat a) = CHR ''-'' # showNat (nat (- b))"
        by (simp add: showInt_def)
      then have "hd (showNat (nat a)) = CHR ''-''" by simp
      with hd_nat show ?thesis by blast
    next
      case b: False
      with False eq have "showNat (nat a) = showNat (nat b)" by (simp add: showInt_def)
      then have "nat a = nat b" by (rule showNat_inj)
      with False b show ?thesis by simp
    qed
  qed
qed

lemma split_at_first:
  "xs @ x # ys = xs' @ x # ys' \<Longrightarrow> x \<notin> set xs \<Longrightarrow> x \<notin> set xs' \<Longrightarrow>
   xs = xs' \<and> ys = ys'"
proof (induction xs arbitrary: xs')
  case Nil
  then show ?case by (cases xs') auto
next
  case (Cons a xs)
  then show ?case by (cases xs') auto
qed

lemma makeId_inj: "makeId a i = makeId b j \<Longrightarrow> a = b \<and> i = j"
proof -
  assume eq: "makeId a i = makeId b j"
  then have "rev (makeId a i) = rev (makeId b j)" by simp
  then have "rev (showNat i) @ CHR ''-'' # rev (showInt a) =
             rev (showNat j) @ CHR ''-'' # rev (showInt b)"
    by (simp add: makeId_def)
  moreover have "CHR ''-'' \<notin> set (rev (showNat i))" "CHR ''-'' \<notin> set (rev (showNat j))"
    using showNat_no_minus by simp_all
  ultimately have "rev (showNat i) = rev (showNat j) \<and> rev (showInt a) = rev (showInt b)"
    by (rule split_at_first)
  then have "showNat i = showNat j" and "showInt a = showInt b" by simp_all
  then show ?thesis using showNat_inj showInt_inj by blast
qed


text \<open>
  The finalising updaters keep the ids, so the ids of the history after a drop are the
  ids of the accepted files, latest first, before the ids that were there. Within one
  drop the indices differ, hence the ids.
\<close>

lemma ident_updateWithResults [simp]:
  "map ident (updateWithResults sid result xs) = map ident xs"
  by (simp add: updateWithResults_def)

lemma ident_markFailed [simp]: "map ident (markFailed sid e xs) = map ident xs"
  by (simp add: markFailed_def)

lemma updateWithResults_fresh:
  "sid \<notin> ident ` set xs \<Longrightarrow> updateWithResults sid result xs = xs"
  unfolding updateWithResults_def by (rule map_idI) auto

lemma markFailed_fresh: "sid \<notin> ident ` set xs \<Longrightarrow> markFailed sid e xs = xs"
  unfolding markFailed_def by (rule map_idI) auto

lemma updateWithResults_Cons:
  "updateWithResults sid result (s # xs) =
     (if ident s = sid
      then s\<lparr> status := (if success result then Completed else Error),
              analysis := (if success result then summary result else error result) \<rparr>
      else s) # updateWithResults sid result xs"
  by (simp add: updateWithResults_def)

lemma markFailed_Cons:
  "markFailed sid e (s # xs) =
     (if ident s = sid
      then s\<lparr> status := Error, analysis := Some (''Processing failed: '' @ e) \<rparr>
      else s) # markFailed sid e xs"
  by (simp add: markFailed_def)

lemma processFile_ids:
  "map ident (screenshots (fst (processFile i file r captured st))) =
     makeId (date_now r) i # map ident (screenshots (fst st))"
  by (cases "settled r")
    (simp_all add: processFile_def Let_def finallyBlock_def addToState_def uploadScreenshot_def)

lemma dropLoop_ids:
  "map ident (screenshots (fst (dropLoop i files captured st))) =
     rev (newIds i files) @ map ident (screenshots (fst st))"
proof (induction files arbitrary: i st)
  case Nil
  show ?case by simp
next
  case (Cons fr files)
  obtain f r where fr: "fr = (f, r)" by (cases fr)
  show ?case
    unfolding fr using Cons.IH by (simp add: processFile_ids)
qed

lemma newIds_index:
  "x \<in> set (newIds i files) \<Longrightarrow> \<exists>a j. x = makeId a j \<and> i \<le> j"
proof (induction files arbitrary: i)
  case Nil
  then show ?case by simp
next
  case (Cons fr files)
  obtain f r where fr: "fr = (f, r)" by (cases fr)
  from Cons.prems have "x = makeId (date_now r) i \<or> x \<in> set (newIds (Suc i) files)"
    unfolding fr by (simp split: if_splits)
  then show ?case
  proof
    assume "x = makeId (date_now r) i"
    then show ?thesis by blast
  next
    assume "x \<in> set (newIds (Suc i) files)"
    from Cons.IH [OF this] obtain a j where "x = makeId a j" "Suc i \<le> j" by blast
    then have "x = makeId a j \<and> i \<le> j" by simp
    then show ?thesis by blast
  qed
qed

lemma distinct_newIds: "distinct (newIds i files)"
proof (induction files arbitrary: i)
  case Nil
  show ?case by simp
next
  case (Cons fr files)
  obtain f r where fr: "fr = (f, r)" by (cases fr)
  have "makeId (date_now r) i \<notin> set (newIds (Suc i) files)"
  proof
    assume "makeId (date_now r) i \<in> set (newIds (Suc i) files)"
    from newIds_index [OF this] obtain a j
      where "makeId (date_now r) i = makeId a j" "Suc i \<le> j" by blast
    with makeId_inj show False by fastforce
  qed
  with Cons.IH show ?case unfolding fr by simp
qed

lemma ids_distinct_within_a_drop:
  "screenshots app = [] \<Longrightarrow>
   distinct (map ident (screenshots (fst (handleFilesDropped files captured app))))"
  by (simp add: handleFilesDropped_def dropLoop_ids distinct_newIds)

text \<open>
  Claim C3. The id of an uploaded item is the clock reading and the index of the file
  in its drop. Two drops of one file each that read the same value of the clock give
  both items the id \<^verbatim>\<open>1700000000000-0\<close>; the handler adds the second without
  looking for the id in the list (the listener does look).
\<close>

theorem same_clock_same_id:
  "map ident (screenshots (fst (handleFilesDropped [(chart_png, refused)] 0
      (fst (handleFilesDropped [(shot_png, answered)] 0 idle_app))))) =
   [''1700000000000-0'', ''1700000000000-0'']"
  by (simp add: handler_defs shot_png_def chart_png_def answered_def refused_def
      ok_response_def failed_response_def idle_app_def)

subsection \<open>The status of an item\<close>

text \<open>
  What holds of the life of an item. An upload whose id is not yet in the history is
  added in front, and when its iteration ends it has left the PROCESSING state while the
  other items are as they were. In every execution free of loads, an item that has left
  the PROCESSING state does not return to it.
\<close>

lemma fresh_upload_single_transition:
  assumes "makeId (date_now r) i \<notin> ident ` set (screenshots app)"
  shows "\<exists>final. screenshots (fst (processFile i file r captured (app, eff))) =
             final # screenshots app \<and>
           frozen final = frozen (uploadScreenshot i file r) \<and>
           status final \<noteq> Processing"
proof -
  have id: "ident (uploadScreenshot i file r) = makeId (date_now r) i"
    by (simp add: uploadScreenshot_def)
  show ?thesis
    using assms
    by (cases "settled r")
      (simp_all add: processFile_def Let_def finallyBlock_def addToState_def id frozen_def
        updateWithResults_fresh markFailed_fresh updateWithResults_Cons markFailed_Cons)
qed

lemma later_refl: "later s s"
  by (simp add: later_def)

lemma later_trans: "later a b \<Longrightarrow> later b c \<Longrightarrow> later a c"
  by (auto simp: later_def)

lemma later_updateWithResults: "list_all2 later xs (updateWithResults sid result xs)"
  by (simp add: updateWithResults_def list_all2_map2 later_def frozen_def list_all2_same)

lemma later_markFailed: "list_all2 later xs (markFailed sid e xs)"
  by (simp add: markFailed_def list_all2_map2 later_def frozen_def list_all2_same)

lemma applyUpdate_later:
  assumes "\<not> isLoad u"
  shows "length xs \<le> length (applyUpdate u xs) \<and>
   list_all2 later xs (drop (length (applyUpdate u xs) - length xs) (applyUpdate u xs))"
proof (cases u)
  case (AddToState s)
  then show ?thesis by (simp add: addToState_def list_all2_same later_refl)
next
  case (UpdateWithResults sid result)
  have "length (updateWithResults sid result xs) = length xs"
    by (simp add: updateWithResults_def)
  with UpdateWithResults later_updateWithResults [of xs sid result] show ?thesis by simp
next
  case (MarkFailed sid e)
  have "length (markFailed sid e xs) = length xs" by (simp add: markFailed_def)
  with MarkFailed later_markFailed [of xs sid e] show ?thesis by simp
next
  case (ScreenshotProcessed p)
  then show ?thesis
    by (simp add: onScreenshotProcessed_def Let_def list_all2_same later_refl)
next
  case (LoadScreenshots existing)
  with assms show ?thesis by simp
qed

lemma run_later:
  assumes "loadFree us"
  shows "length xs \<le> length (run us xs) \<and>
   list_all2 later xs (drop (length (run us xs) - length xs) (run us xs))"
  using assms
proof (induction us arbitrary: xs)
  case Nil
  show ?case by (simp add: list_all2_same later_refl)
next
  case (Cons u us)
  from Cons.prems have nl: "\<not> isLoad u" and lf: "loadFree us"
    by (simp_all add: loadFree_def)
  define p where "p = applyUpdate u xs"
  define h where "h = run us p"
  from applyUpdate_later [OF nl, of xs]
  have l1: "length xs \<le> length p" and a1: "list_all2 later xs (drop (length p - length xs) p)"
    by (simp_all add: p_def)
  from Cons.IH [OF lf, of p]
  have l2: "length p \<le> length h" and a2: "list_all2 later p (drop (length h - length p) h)"
    by (simp_all add: h_def)
  from a2 have "list_all2 later (drop (length p - length xs) p)
      (drop (length p - length xs) (drop (length h - length p) h))"
    by (rule list_all2_dropI)
  moreover from l1 l2 have "(length p - length xs) + (length h - length p) = length h - length xs"
    by simp
  ultimately have "list_all2 later (drop (length p - length xs) p) (drop (length h - length xs) h)"
    by (simp add: add.commute)
  with a1 have "list_all2 later xs (drop (length h - length xs) h)"
    using later_trans by (rule list_all2_trans [rotated])
  with l1 l2 show ?case by (simp add: h_def p_def)
qed

lemma never_back_to_processing:
  assumes "loadFree us" and "k < length xs" and "status (xs ! k) \<noteq> Processing"
  shows "status (run us xs ! (length (run us xs) - length xs + k)) \<noteq> Processing"
proof -
  from run_later [OF assms(1), of xs]
  have l: "length xs \<le> length (run us xs)"
    and a: "list_all2 later xs (drop (length (run us xs) - length xs) (run us xs))"
    by simp_all
  from a assms(2) have "later (xs ! k) (drop (length (run us xs) - length xs) (run us xs) ! k)"
    by (rule list_all2_nthD)
  with assms l show ?thesis by (simp add: later_def)
qed

text \<open>
  Claim C1. An item is finalised by a map over the whole list that rewrites every item
  with the id of the finalised one. When two items share an id (two drops that read
  the same value of the clock), the answer for the second rewrites the first as well: the
  item of \<^verbatim>\<open>shot.png\<close> is completed, and then becomes an error when the backend
  refuses \<^verbatim>\<open>chart.png\<close>. The first two equations run the two drops one after the
  other; the last two interleave them (both items are added before either answer
  arrives).
\<close>

theorem terminal_status_overwritten:
  "map status (screenshots (fst (handleFilesDropped [(shot_png, answered)] 0 idle_app))) =
     [Completed] \<and>
   map status (screenshots (fst (handleFilesDropped [(chart_png, refused)] 0
      (fst (handleFilesDropped [(shot_png, answered)] 0 idle_app))))) =
     [Error, Error] \<and>
   map status (run [AddToState (uploadScreenshot 0 shot_png answered),
                    AddToState (uploadScreenshot 0 chart_png refused),
                    UpdateWithResults (makeId 1700000000000 0) ok_response] []) =
     [Completed, Completed] \<and>
   map status (run [AddToState (uploadScreenshot 0 shot_png answered),
                    AddToState (uploadScreenshot 0 chart_png refused),
                    UpdateWithResults (makeId 1700000000000 0) ok_response,
                    UpdateWithResults (makeId 1700000000000 0) failed_response] []) =
     [Error, Error]"
  by (simp add: handler_defs shot_png_def chart_png_def answered_def refused_def
      ok_response_def failed_response_def idle_app_def)

subsection \<open>The analysis text\<close>

lemma loadedScreenshot_same: "loadedScreenshot item = item"
  by (simp add: loadedScreenshot_def)

lemma upload_matches: "text_matches_status answers thrown (uploadScreenshot i file r)"
  by (simp add: text_matches_status_def uploadScreenshot_def)

lemma updateWithResults_matches:
  assumes "result \<in> set answers"
    and "list_all (text_matches_status answers thrown) xs"
  shows "list_all (text_matches_status answers thrown) (updateWithResults sid result xs)"
proof -
  have ok: "text_matches_status answers thrown
      (s\<lparr> status := Completed, analysis := summary result \<rparr>)" if "success result" for s
    using assms(1) that by (auto simp: text_matches_status_def list_ex_iff)
  have bad: "text_matches_status answers thrown
      (s\<lparr> status := Error, analysis := error result \<rparr>)" if "\<not> success result" for s
    using assms(1) that by (auto simp: text_matches_status_def list_ex_iff)
  from assms(2) show ?thesis
    unfolding updateWithResults_def
  proof (induction xs)
    case Nil
    show ?case by simp
  next
    case (Cons x xs)
    with ok bad show ?case by simp
  qed
qed

lemma markFailed_matches:
  assumes "e \<in> set thrown"
    and "list_all (text_matches_status answers thrown) xs"
  shows "list_all (text_matches_status answers thrown) (markFailed sid e xs)"
proof -
  have bad: "text_matches_status answers thrown
      (s\<lparr> status := Error, analysis := Some (''Processing failed: '' @ e) \<rparr>)" for s
    using assms(1) by (auto simp: text_matches_status_def list_ex_iff)
  from assms(2) show ?thesis
    unfolding markFailed_def
  proof (induction xs)
    case Nil
    show ?case by simp
  next
    case (Cons x xs)
    with bad show ?case by simp
  qed
qed

lemma applyUpdate_matches:
  assumes "admissible answers thrown u"
    and "list_all (text_matches_status answers thrown) xs"
  shows "list_all (text_matches_status answers thrown) (applyUpdate u xs)"
proof (cases u)
  case (AddToState s)
  with assms show ?thesis by (simp add: addToState_def)
next
  case (UpdateWithResults sid result)
  with assms updateWithResults_matches show ?thesis by simp
next
  case (MarkFailed sid e)
  with assms markFailed_matches show ?thesis by simp
next
  case (ScreenshotProcessed p)
  with assms show ?thesis by (simp add: onScreenshotProcessed_def Let_def)
next
  case (LoadScreenshots existing)
  have "map loadedScreenshot existing = existing"
    by (rule map_idI) (rule loadedScreenshot_same)
  with LoadScreenshots assms show ?thesis by (simp add: loadScreenshots_def)
qed

text \<open>
  Claim C4. The shell keeps both texts of the claim in the field \<open>analysis\<close>, and every
  finalisation writes the field together with the status. Take any execution (appends,
  finalisations in any order and also of items that share an id, events, loads) whose
  finalisations use the given responses and errors and in which the items that come as
  they are have a text that matches their status; an item of the upload handler is of
  this kind. Then every item of the history has a text that matches its status: an
  item in the PROCESSING state has no text, the text of a COMPLETED item is the summary
  of a response that reported success, and the text of an ERROR item is the error of a
  response that reported failure or the text made of a thrown error. So a summary is
  carried only by COMPLETED items and an error detail only by ERROR items.
\<close>

theorem analysis_text_matches_status:
  assumes "list_all (text_matches_status answers thrown) prev"
    and "list_all (admissible answers thrown) us"
  shows "list_all (text_matches_status answers thrown) (run us prev) \<and>
         admissible answers thrown (AddToState (uploadScreenshot i file r))"
proof
  from assms show "list_all (text_matches_status answers thrown) (run us prev)"
  proof (induction us arbitrary: prev)
    case Nil
    then show ?case by simp
  next
    case (Cons u us)
    from Cons.prems have u: "admissible answers thrown u"
      and rest: "list_all (admissible answers thrown) us" by simp_all
    from u Cons.prems(1)
    have "list_all (text_matches_status answers thrown) (applyUpdate u prev)"
      by (rule applyUpdate_matches)
    from Cons.IH [OF this rest] show ?case by simp
  qed
next
  show "admissible answers thrown (AddToState (uploadScreenshot i file r))"
    by (simp add: upload_matches)
qed

theorem analysis_text_matches_status_witness:
  "list_all (text_matches_status [ok_response, failed_response] [''timeout'']) [] \<and>
   list_all (admissible [ok_response, failed_response] [''timeout''])
     [AddToState (uploadScreenshot 0 shot_png answered),
      AddToState (uploadScreenshot 0 chart_png refused),
      AddToState (uploadScreenshot 1 shot_png refused),
      UpdateWithResults (makeId 1700000000000 0) ok_response,
      MarkFailed (makeId 1700000000000 1) ''timeout'',
      UpdateWithResults (makeId 1700000000000 0) failed_response] \<and>
   list_all (text_matches_status [ok_response, failed_response] [''timeout''])
     (run [AddToState (uploadScreenshot 0 shot_png answered),
           AddToState (uploadScreenshot 0 chart_png refused),
           AddToState (uploadScreenshot 1 shot_png refused),
           UpdateWithResults (makeId 1700000000000 0) ok_response,
           MarkFailed (makeId 1700000000000 1) ''timeout'',
           UpdateWithResults (makeId 1700000000000 0) failed_response] []) \<and>
   map analysis
     (run [AddToState (uploadScreenshot 0 shot_png answered),
           AddToState (uploadScreenshot 0 chart_png refused),
           AddToState (uploadScreenshot 1 shot_png refused),
           UpdateWithResults (makeId 1700000000000 0) ok_response,
           MarkFailed (makeId 1700000000000 1) ''timeout'',
           UpdateWithResults (makeId 1700000000000 0) failed_response] []) =
     [Some ''Processing failed: timeout'', Some ''rate limited'', Some ''rate limited'']"
proof -
  have start: "list_all (text_matches_status [ok_response, failed_response] [''timeout'']) []"
    by simp
  have adm: "list_all (admissible [ok_response, failed_response] [''timeout''])
     [AddToState (uploadScreenshot 0 shot_png answered),
      AddToState (uploadScreenshot 0 chart_png refused),
      AddToState (uploadScreenshot 1 shot_png refused),
      UpdateWithResults (makeId 1700000000000 0) ok_response,
      MarkFailed (makeId 1700000000000 1) ''timeout'',
      UpdateWithResults (makeId 1700000000000 0) failed_response]"
    by (simp add: upload_matches)
  have texts: "map analysis
     (run [AddToState (uploadScreenshot 0 shot_png answered),
           AddToState (uploadScreenshot 0 chart_png refused),
           AddToState (uploadScreenshot 1 shot_png refused),
           UpdateWithResults (makeId 1700000000000 0) ok_response,
           MarkFailed (makeId 1700000000000 1) ''timeout'',
           UpdateWithResults (makeId 1700000000000 0) failed_response] []) =
     [Some ''Processing failed: timeout'', Some ''rate limited'', Some ''rate limited'']"
    by (simp add: handler_defs answered_def refused_def ok_response_def failed_response_def)
  from analysis_text_matches_status [OF start adm] start adm texts
  show ?thesis by blast
qed

subsection \<open>The order of the history\<close>






section \<open>Properties of the server panel\<close>

text \<open>
  Claim C5. When the AI credential of the configuration is absent (missing or empty),
  \<^verbatim>\<open>startServer\<close> only raises the alert that the key is required: whatever the
  backend would answer, the command \<^verbatim>\<open>start_server\<close> is not invoked, no server
  information is stored, and the component state (the lifecycle state
  \<^verbatim>\<open>serverInfo\<close> included) is the one before the call. The button that calls
  \<^verbatim>\<open>startServer\<close> is disabled as well.
\<close>

theorem start_without_credential:
  "absent (anthropic_api_key (config panel)) \<Longrightarrow>
   startServer backend panel = (panel, [Alert ''Anthropic API key is required!'']) \<and>
   startButtonDisabled panel"
  by (simp add: startServer_def startButtonDisabled_def)

theorem start_without_credential_witness:
  "absent (anthropic_api_key (config keyless_panel)) \<and>
   startServer (StartResolved running_info) keyless_panel =
     (keyless_panel, [Alert ''Anthropic API key is required!'']) \<and>
   startButtonDisabled keyless_panel"
proof -
  have a: "absent (anthropic_api_key (config keyless_panel))"
    by (simp add: absent_def keyless_panel_def)
  show ?thesis using a start_without_credential [OF a] by simp
qed

section \<open>Properties of the Processing Pipeline\<close>

text \<open>
  Claim C7. When the image was decoded and the analysis succeeded, the item is finalised
  as COMPLETED with the summary, whether the notification is delivered or not: a failed
  delivery gives the same item and the same event as a successful one, and only adds a
  line to the log.
\<close>

theorem notification_failure_keeps_completed:
  "decoded env \<Longrightarrow> analysed env = Inr text \<Longrightarrow>
   fst (submit env item) = item\<lparr> item_status := Completed, analysisSummary := Some text \<rparr> \<and>
   fst (submit (env\<lparr> delivered := False \<rparr>) item) =
     fst (submit (env\<lparr> delivered := True \<rparr>) item) \<and>
   snd (snd (submit (env\<lparr> delivered := False \<rparr>) item)) =
     snd (snd (submit (env\<lparr> delivered := True \<rparr>) item)) \<and>
   fst (snd (submit (env\<lparr> delivered := False \<rparr>) item)) = [NotificationDeliveryFailed]"
  by (simp add: submit_def Let_def)

theorem notification_failure_keeps_completed_witness:
  "decoded undelivered \<and> analysed undelivered = Inr ''A login form'' \<and>
   item_status (fst (submit undelivered ingested)) = Completed \<and>
   analysisSummary (fst (submit undelivered ingested)) = Some ''A login form'' \<and>
   fst (snd (submit undelivered ingested)) = [NotificationDeliveryFailed]"
proof -
  have d: "decoded undelivered" and a: "analysed undelivered = Inr ''A login form''"
    by (simp_all add: undelivered_def)
  have same: "undelivered\<lparr> delivered := False \<rparr> = undelivered"
    by (simp add: undelivered_def)
  show ?thesis
    using d a notification_failure_keeps_completed [OF d a, of ingested] by (simp add: same)
qed

section \<open>Properties of the validation\<close>

text \<open>
  Claim C8. A submission that can be read, of an image type, whose payload has exactly
  the size of the configured limit is accepted; a payload of one byte more than the
  limit is rejected with a ValidationError.
\<close>

theorem size_limit_boundary:
  "(well_formed sub \<and> startsWith (sub_mime sub) ''image/'' \<and> sub_size sub = limit \<longrightarrow>
      validate limit sub = Inr sub) \<and>
   (sub_size sub = Suc limit \<longrightarrow> validate limit sub = Inl ValidationError)"
  by (simp add: validate_def)

theorem size_limit_boundary_witness:
  "well_formed at_limit \<and> startsWith (sub_mime at_limit) ''image/'' \<and>
   sub_size at_limit = 15728640 \<and> validate 15728640 at_limit = Inr at_limit \<and>
   sub_size over_limit = Suc 15728640 \<and> validate 15728640 over_limit = Inl ValidationError"
proof -
  have a: "well_formed at_limit \<and> startsWith (sub_mime at_limit) ''image/'' \<and>
           sub_size at_limit = 15728640"
    by (simp add: at_limit_def startsWith_def)
  have b: "sub_size over_limit = Suc 15728640"
    by (simp add: over_limit_def)
  from a b size_limit_boundary [of at_limit 15728640] size_limit_boundary [of over_limit 15728640]
  show ?thesis by blast
qed

end
